theory Spec2Isabelle
  imports Complex_Main "HOL-Library.Word" "HOL-Library.Log_Nat"
begin

section \<open>Data model of \<^verbatim>\<open>pad_alpha.py\<close>\<close>

text \<open>
  The program holds an image as a numpy array of shape \<open>(h, w, 4)\<close> and type uint8:
  a list of rows, each row a list of pixels, each pixel the list of its four channels
  R, G, B, A.  A validity mask is a boolean array of shape \<open>(h, w)\<close>.  Intermediate
  float32 arrays that only ever hold small non-negative integers (channel values times a
  0/1 weight, and window sums of these) are lists of natural numbers: every such value is
  exactly representable in float32 as long as it stays below \<open>2 ^ 24\<close>, which holds
  for every radius up to 127, whatever the image.
\<close>

type_synonym u8 = "8 word"
type_synonym image = "u8 list list list"
type_synonym mask = "bool list list"

definition wf_image :: "nat \<Rightarrow> nat \<Rightarrow> image \<Rightarrow> bool" where
  "wf_image h w d \<longleftrightarrow>
     length d = h \<and> (\<forall>row \<in> set d. length row = w \<and> (\<forall>px \<in> set row. length px = 4))"

definition wf_mask :: "nat \<Rightarrow> nat \<Rightarrow> mask \<Rightarrow> bool" where
  "wf_mask h w m \<longleftrightarrow> length m = h \<and> (\<forall>row \<in> set m. length row = w)"

text \<open>\<^verbatim>\<open>~mask\<close>, \<^verbatim>\<open>np.any\<close>, \<^verbatim>\<open>np.all\<close>, \<^verbatim>\<open>mask.astype(np.float32)\<close> and
  \<^verbatim>\<open>data[:, :, c].astype(np.float32)\<close>.\<close>

definition invert :: "mask \<Rightarrow> mask" where
  "invert m = map (map Not) m"

definition np_any :: "mask \<Rightarrow> bool" where
  "np_any m = list_ex (list_ex (\<lambda>b. b)) m"

definition np_all :: "mask \<Rightarrow> bool" where
  "np_all m = list_all (list_all (\<lambda>b. b)) m"

definition astype_float :: "mask \<Rightarrow> nat list list" where
  "astype_float m = map (map (\<lambda>b. if b then 1 else 0)) m"

definition channel :: "image \<Rightarrow> nat \<Rightarrow> nat list list" where
  "channel d c = map (map (\<lambda>px. unat (px ! c))) d"

text \<open>Elementwise product of two arrays of one shape (\<^verbatim>\<open>channel * weight_mask\<close>).\<close>

definition times2 :: "nat list list \<Rightarrow> nat list list \<Rightarrow> nat list list" where
  "times2 a b = map2 (\<lambda>ra rb. map2 (\<lambda>x y. x * y) ra rb) a b"

section \<open>The weighted-average fill: \<^verbatim>\<open>smooth_pad\<close>\<close>

text \<open>
  \<^verbatim>\<open>generic_filter(a, np.sum, size=s, mode='constant', cval=0.0)\<close>: the sum of the
  \<open>s \<times> s\<close> window around every element, the window reaching from \<open>- (s div 2)\<close> to
  \<open>s - s div 2 - 1\<close> on both axes, positions outside the array counting as 0.
\<close>

definition at0 :: "nat list list \<Rightarrow> int \<Rightarrow> int \<Rightarrow> nat" where
  "at0 a i j =
     (if 0 \<le> i \<and> i < int (length a) \<and> 0 \<le> j \<and> j < int (length (a ! nat i))
      then a ! nat i ! nat j else 0)"

definition window_sum :: "nat list list \<Rightarrow> nat \<Rightarrow> nat \<Rightarrow> nat \<Rightarrow> nat" where
  "window_sum a s i j =
     (let lo = - int (s div 2); hi = int s - int (s div 2) - 1
      in sum_list (map (\<lambda>di. sum_list (map (\<lambda>dj. at0 a (int i + di) (int j + dj)) [lo..hi]))
           [lo..hi]))"

definition generic_filter_sum :: "nat list list \<Rightarrow> nat \<Rightarrow> nat list list" where
  "generic_filter_sum a s =
     map (\<lambda>i. map (\<lambda>j. window_sum a s i j) [0..<length (a ! i)]) [0..<length a]"

text \<open>
  \<^verbatim>\<open>np.divide(sum_c, sum_w, out=np.zeros_like(sum_c), where=sum_w > 0)\<close> followed by the
  store into the uint8 array, which truncates: where the weight sum is positive the stored
  byte is the integer quotient, elsewhere it is the 0 of the \<^verbatim>\<open>out\<close> array.  (The
  quotient of two exactly represented integers below \<open>2 ^ 24\<close>, rounded to float32 and
  truncated, is their integer quotient.)
\<close>

definition divide_where :: "nat list list \<Rightarrow> nat list list \<Rightarrow> nat list list" where
  "divide_where sum_c sum_w =
     map2 (\<lambda>rc rw. map2 (\<lambda>sc sw. if sw > 0 then sc div sw else 0) rc rw) sum_c sum_w"

definition avg_channel :: "image \<Rightarrow> mask \<Rightarrow> nat \<Rightarrow> nat \<Rightarrow> u8 list list" where
  "avg_channel d m radius c =
     (let weight_mask = astype_float m;
          sum_c = generic_filter_sum (times2 (channel d c) weight_mask) (2 * radius + 1);
          sum_w = generic_filter_sum weight_mask (2 * radius + 1);
          avg_c = divide_where sum_c sum_w
      in map (map of_nat) avg_c)"

text \<open>\<^verbatim>\<open>out[:, :, c][sel] = vals[sel]\<close>: channel \<open>c\<close> of every selected pixel is
  replaced; nothing else is written.\<close>

definition assign_where :: "image \<Rightarrow> nat \<Rightarrow> mask \<Rightarrow> u8 list list \<Rightarrow> image" where
  "assign_where out c sel vals =
     map (\<lambda>i. map (\<lambda>j. if sel ! i ! j then (out ! i ! j)[c := vals ! i ! j] else out ! i ! j)
                [0..<length (out ! i)])
         [0..<length out]"

definition smooth_pad :: "image \<Rightarrow> mask \<Rightarrow> nat \<Rightarrow> image" where
  "smooth_pad d m radius =
     fold (\<lambda>c output. assign_where output c (invert m) (avg_channel d m radius c)) [0..<3] d"

section \<open>The nearest-valid-pixel fill: \<^verbatim>\<open>flood_fill_pad\<close>\<close>

text \<open>
  \<^verbatim>\<open>distance_transform_edt(inverse_mask, return_indices=True)\<close> gives, for every
  position, the coordinates of a nearest position where \<^verbatim>\<open>inverse_mask\<close> is false, by
  Euclidean distance.  Which one of several equally near positions it gives is a matter
  of scipy's algorithm, not of this program: the model takes the rule as a parameter
  \<open>tie\<close>, a function from the position and the list of its nearest candidates (in
  row-major order) to the one chosen; a \<open>tie\<close> that answers outside the list is
  replaced by the first candidate.  When the array has no false position at all, scipy
  marks the first coordinate with \<open>-1\<close> and leaves the second at the 0 its index array
  was created with: the answer is \<open>(-1, 0)\<close> everywhere.
\<close>

type_synonym tie_rule = "nat \<times> nat \<Rightarrow> (nat \<times> nat) list \<Rightarrow> nat \<times> nat"

definition background :: "mask \<Rightarrow> (nat \<times> nat) list" where
  "background m =
     concat (map (\<lambda>p. map (\<lambda>q. (p, q)) (filter (\<lambda>q. \<not> m ! p ! q) [0..<length (m ! p)]))
               [0..<length m])"

definition sqdist :: "nat \<times> nat \<Rightarrow> nat \<times> nat \<Rightarrow> int" where
  "sqdist x y =
     (int (fst x) - int (fst y)) * (int (fst x) - int (fst y))
     + (int (snd x) - int (snd y)) * (int (snd x) - int (snd y))"

definition nearest :: "tie_rule \<Rightarrow> (nat \<times> nat) list \<Rightarrow> nat \<times> nat \<Rightarrow> int \<times> int" where
  "nearest tie bg x =
     (if bg = [] then (- 1, 0)
      else let dmin = min_list (map (sqdist x) bg);
               cands = filter (\<lambda>y. sqdist x y = dmin) bg;
               y = (if tie x cands \<in> set cands then tie x cands else hd cands)
           in (int (fst y), int (snd y)))"

definition edt_indices :: "tie_rule \<Rightarrow> mask \<Rightarrow> (int \<times> int) list list" where
  "edt_indices tie m =
     map (\<lambda>i. map (\<lambda>j. nearest tie (background m) (i, j)) [0..<length (m ! i)]) [0..<length m]"

text \<open>Python indexing of a list: a negative index counts from the end.\<close>

definition py_nth :: "'a list \<Rightarrow> int \<Rightarrow> 'a" where
  "py_nth xs i = (if i < 0 then xs ! nat (int (length xs) + i) else xs ! nat i)"

text \<open>\<^verbatim>\<open>data[i_idx, j_idx, c]\<close>: the array of channel \<open>c\<close> of the pixels named by the
  index arrays.\<close>

definition gather :: "image \<Rightarrow> (int \<times> int) list list \<Rightarrow> nat \<Rightarrow> u8 list list" where
  "gather d idx c = map (map (\<lambda>(p, q). py_nth (py_nth d p) q ! c)) idx"

definition flood_fill_pad :: "tie_rule \<Rightarrow> image \<Rightarrow> mask \<Rightarrow> image" where
  "flood_fill_pad tie d m =
     (let inverse_mask = invert m
      in if \<not> np_any inverse_mask then d
         else let idx = edt_indices tie inverse_mask
              in fold (\<lambda>c result. assign_where result c inverse_mask (gather d idx c)) [0..<3] d)"

section \<open>Rounding of floating-point results\<close>

text \<open>
  A Python float is a double and the arrays of the alpha fade are float32.  The values
  are modelled as rationals, and the result of an arithmetic operation is the exact
  result rounded to the nearest value of the format, a tie going to the even significand:
  \<open>fp_round p emin\<close> keeps \<open>p\<close> significant bits, and below the least normal exponent
  \<open>emin\<close> the spacing of the subnormal range.  Overflow to infinity is not modelled: the
  fade divides a difference by the largest difference of the same field, and a side of
  \<open>2 ^ 1024\<close> or more, where Python's division raises, is not the size of an image.
\<close>

definition round_half_even :: "rat \<Rightarrow> int" where
  "round_half_even y =
     (let f = \<lfloor>y\<rfloor>; r = y - of_int f
      in if r < 1 / 2 then f else if 1 / 2 < r then f + 1 else if even f then f else f + 1)"

text \<open>The exponent of a non-zero value: the floor of the binary logarithm of its
  magnitude, from the bit lengths of its numerator and denominator.\<close>

definition ilog2 :: "rat \<Rightarrow> int" where
  "ilog2 x =
     (case quotient_of \<bar>x\<bar> of (a, b) \<Rightarrow>
        let k = bitlen a - bitlen b in if 2 powi k \<le> \<bar>x\<bar> then k else k - 1)"

definition fp_round :: "nat \<Rightarrow> int \<Rightarrow> rat \<Rightarrow> rat" where
  "fp_round p emin x =
     (if x = 0 then 0
      else let e = max (ilog2 x) emin; q = 2 powi (e - int p + 1)
           in of_int (round_half_even (x / q)) * q)"

definition f32 :: "rat \<Rightarrow> rat" where
  "f32 = fp_round 24 (- 126)"

definition f64 :: "rat \<Rightarrow> rat" where
  "f64 = fp_round 53 (- 1022)"

section \<open>Parameters from the resolution: \<^verbatim>\<open>auto_set_params\<close>\<close>

text \<open>
  Python's \<^verbatim>\<open>/\<close> is true division: the quotient of the two integers, rounded to a
  double; the product with 3 is rounded again.  \<^verbatim>\<open>int(x)\<close> truncates towards zero;
  \<^verbatim>\<open>round(x, 1)\<close> gives the nearest multiple of one tenth, a tie going to the even one
  (the double that is returned is the one nearest to that decimal).
\<close>

definition py_int :: "rat \<Rightarrow> int" where
  "py_int x = (if 0 \<le> x then \<lfloor>x\<rfloor> else \<lceil>x\<rceil>)"

definition py_round1 :: "rat \<Rightarrow> rat" where
  "py_round1 x = of_int (round_half_even (x * 10)) / 10"

definition auto_set_params :: "int \<times> int \<Rightarrow> int \<times> rat" where
  "auto_set_params image_size =
     (case image_size of (w, h) \<Rightarrow>
        let max_dim = max w h;
            radius = max 2 (py_int (f64 (f64 (of_int max_dim / 512) * 3)));
            sigma = py_round1 (min 10 (max 1 (f64 (f64 (of_int max_dim / 1024) * 3))))
        in (radius, sigma))"

text \<open>The formulas of the specification, section 4.1, word for word, in exact
  arithmetic.\<close>

definition clamp :: "rat \<Rightarrow> rat \<Rightarrow> rat \<Rightarrow> rat" where
  "clamp x lo hi = max lo (min hi x)"

definition spec_radius :: "int \<Rightarrow> int" where
  "spec_radius maxDim = max 2 \<lfloor>(of_int maxDim :: rat) / 512 * 3\<rfloor>"

definition spec_sigma :: "int \<Rightarrow> rat" where
  "spec_sigma maxDim = clamp (py_round1 (of_int maxDim / 1024 * 3)) 1 10"

section \<open>The mask of an external image: \<^verbatim>\<open>load_mask_image\<close>\<close>

text \<open>
  The file named by \<^verbatim>\<open>mask_path\<close> either does not decode or decodes to a grey image.
  Every exception inside \<^verbatim>\<open>load_mask_image\<close> ends the process with status 1 after a
  message; the two causes are kept apart here.  \<^verbatim>\<open>size\<close> of a PIL image is
  \<open>(width, height)\<close>.
\<close>

datatype mask_file = Undecodable | Decoded "u8 list list"

datatype pad_error = MaskLoadError | MaskSizeMismatch

definition size2 :: "'a list list \<Rightarrow> int \<times> int" where
  "size2 a = (int (if a = [] then 0 else length (hd a)), int (length a))"

definition load_mask_image :: "mask_file \<Rightarrow> int \<times> int \<Rightarrow> pad_error + mask" where
  "load_mask_image f expected_size =
     (case f of
        Undecodable \<Rightarrow> Inl MaskLoadError
      | Decoded mask_img \<Rightarrow>
          if size2 mask_img \<noteq> expected_size then Inl MaskSizeMismatch
          else Inr (map (map (\<lambda>v. 128 < v)) mask_img))"

section \<open>The alpha fade\<close>

text \<open>
  The values of the float32 arrays of the fade are rationals, with the three values a
  division can add: \<^verbatim>\<open>0 / 0\<close> is \<open>NaN\<close> (numpy warns and goes on), and a non-zero
  value over 0 is an infinity.  \<^verbatim>\<open>np.clip\<close> and \<^verbatim>\<open>np.maximum\<close> hand a NaN on.
  Differences, quotients and products are rounded to float32; minimum and maximum are
  exact.
\<close>

datatype npfloat = Fin rat | PInf | NInf | NaN

definition np_divide :: "rat \<Rightarrow> rat \<Rightarrow> npfloat" where
  "np_divide x y =
     (if y \<noteq> 0 then Fin (f32 (x / y)) else if x = 0 then NaN else if 0 < x then PInf else NInf)"

fun np_clip01 :: "npfloat \<Rightarrow> npfloat" where
  "np_clip01 (Fin x) = Fin (min (max x 0) 1)"
| "np_clip01 PInf = Fin 1"
| "np_clip01 NInf = Fin 0"
| "np_clip01 NaN = NaN"

fun times255 :: "npfloat \<Rightarrow> npfloat" where
  "times255 (Fin x) = Fin (f32 (x * 255))"
| "times255 PInf = PInf"
| "times255 NInf = NInf"
| "times255 NaN = NaN"

fun np_maximum :: "rat \<Rightarrow> npfloat \<Rightarrow> npfloat" where
  "np_maximum a (Fin x) = Fin (max a x)"
| "np_maximum a PInf = PInf"
| "np_maximum a NInf = Fin a"
| "np_maximum a NaN = NaN"

text \<open>
  \<^verbatim>\<open>.astype(np.uint8)\<close> truncates a finite value; what it makes of a NaN or an infinity
  is the platform's choice (0 on x86-64 and on AArch64), the parameter \<open>nan\<close>.
\<close>

fun astype_u8 :: "u8 \<Rightarrow> npfloat \<Rightarrow> u8" where
  "astype_u8 nan (Fin x) = word_of_int (py_int x)"
| "astype_u8 nan PInf = nan"
| "astype_u8 nan NInf = nan"
| "astype_u8 nan NaN = nan"

text \<open>\<^verbatim>\<open>a.min()\<close> and \<^verbatim>\<open>a.max()\<close> over the whole (non-empty) array.\<close>

definition amin :: "rat list list \<Rightarrow> rat" where
  "amin a = (let xs = concat a in fold min (tl xs) (hd xs))"

definition amax :: "rat list list \<Rightarrow> rat" where
  "amax a = (let xs = concat a in fold max (tl xs) (hd xs))"

text \<open>Lines 133 and 134: from the original alpha and the blurred field to the faded alpha.\<close>

definition fade_alpha :: "u8 \<Rightarrow> rat list list \<Rightarrow> rat list list \<Rightarrow> u8 list list" where
  "fade_alpha nan alpha distance =
     (let normalized =
            map (map (\<lambda>x. np_clip01 (np_divide (f32 (x - amin distance))
                                                (f32 (amax distance - amin distance)))))
              distance
      in map2 (\<lambda>ra rn. map2 (\<lambda>a n. astype_u8 nan (np_maximum a (times255 n))) ra rn)
           alpha normalized)"

section \<open>The pipeline: \<^verbatim>\<open>pad_image\<close>\<close>

text \<open>
  What scipy and the platform decide, and this program does not: the tie rule of the
  distance transform, the Gaussian blur (a function of the field and of sigma), and the
  byte a NaN is cast to.
\<close>

record libs =
  edt_tie :: tie_rule
  gaussian_filter :: "rat list list \<Rightarrow> rat \<Rightarrow> rat list list"
  nan_cast :: u8

text \<open>
  The stages that touch pixels, in the order they run, and the three ways a run ends: the
  process exits with status 1, the function returns early with nothing saved, or the
  array is handed to the encoder.  Decoding the input and encoding the output are
  outside the model.  The radius is a natural number: on a negative one scipy raises
  before any pixel is written.
\<close>

datatype stage = ZeroInvalid | SmoothPad | FloodFillPad | AlphaFade | ForceOpaque

datatype outcome = Exit1 pad_error | NothingToPad | Saved image

text \<open>\<^verbatim>\<open>data[alpha < 255, :3] = 0\<close>\<close>

definition zero_invalid :: "image \<Rightarrow> image" where
  "zero_invalid d = map (map (\<lambda>px. if px ! 3 < 255 then px[0 := 0, 1 := 0, 2 := 0] else px)) d"

text \<open>\<^verbatim>\<open>padded_data[:, :, 3] = faded_alpha\<close>\<close>

definition set_alpha :: "image \<Rightarrow> u8 list list \<Rightarrow> image" where
  "set_alpha d a =
     map (\<lambda>i. map (\<lambda>j. (d ! i ! j)[3 := a ! i ! j]) [0..<length (d ! i)]) [0..<length d]"

text \<open>Lines 129 to 135.\<close>

definition alpha_stage :: "libs \<Rightarrow> rat \<Rightarrow> image \<Rightarrow> image \<Rightarrow> image" where
  "alpha_stage env sigma d padded_data =
     (let alpha = map (map (\<lambda>px. of_nat (unat (px ! 3)))) d;
          fade_mask = map (map (\<lambda>a. if a < (255 :: rat) then 1 else 0)) alpha;
          distance = gaussian_filter env (map (map (\<lambda>f. 1 - f)) fade_mask) sigma;
          faded_alpha = fade_alpha (nan_cast env) alpha distance
      in set_alpha padded_data faded_alpha)"

text \<open>Line 138: the three colour channels and a new alpha channel of 255.\<close>

definition force_opaque :: "image \<Rightarrow> image" where
  "force_opaque d = map (map (\<lambda>px. take 3 px @ [255])) d"

definition pad_image ::
  "libs \<Rightarrow> image \<Rightarrow> nat option \<Rightarrow> rat option \<Rightarrow> mask_file option \<Rightarrow> bool \<Rightarrow> stage list \<times> outcome"
where
  "pad_image env d radius blur_sigma uv_mask auto_params =
     (let auto = auto_set_params (size2 d);
          use_auto = (auto_params \<or> (radius = None \<and> blur_sigma = None));
          radius1 = (case radius of None \<Rightarrow> if use_auto then nat (fst auto) else 3 | Some r \<Rightarrow> r);
          sigma1 = (case blur_sigma of None \<Rightarrow> if use_auto then snd auto else 3 | Some s \<Rightarrow> s)
      in case uv_mask of
           Some f \<Rightarrow>
             (case load_mask_image f (size2 d) of
                Inl e \<Rightarrow> ([], Exit1 e)
              | Inr m \<Rightarrow>
                  let padded = smooth_pad d m radius1;
                      padded2 = flood_fill_pad (edt_tie env) padded m
                  in ([SmoothPad, FloodFillPad, ForceOpaque], Saved (force_opaque padded2)))
         | None \<Rightarrow>
             let alpha = map (map (\<lambda>px. px ! 3)) d
             in if np_all (map (map (\<lambda>a. a = 255)) alpha) then ([], NothingToPad)
             else
               let m = map (map (\<lambda>a. a = 255)) alpha;
                   d1 = zero_invalid d;
                   padded = smooth_pad d1 m radius1;
                   padded2 = flood_fill_pad (edt_tie env) padded m
               in ([ZeroInvalid, SmoothPad, FloodFillPad, AlphaFade],
                   Saved (alpha_stage env sigma1 d1 padded2)))"

text \<open>
  An environment for concrete runs: the first candidate in row-major order wins a tie, a
  NaN is cast to 0, and the blur is the identity, which is what scipy's
  \<^verbatim>\<open>gaussian_filter\<close> is for a sigma below 0.125 (its kernel then has radius
  \<open>int(4 * sigma + 0.5) = 0\<close>) and what every blur is on a constant field of zeros.
\<close>

definition small_sigma_env :: libs where
  "small_sigma_env =
     \<lparr>edt_tie = (\<lambda>x cands. hd cands), gaussian_filter = (\<lambda>a sigma. a), nan_cast = 0\<rparr>"

text \<open>The image and the mask of the scenario of section 8 of the specification: three by
  three, only the centre valid, the colour of the others zeroed.\<close>

definition scenario_img :: image where
  "scenario_img =
     [[[0, 0, 0, 0], [0, 0, 0, 0], [0, 0, 0, 0]],
      [[0, 0, 0, 0], [200, 50, 10, 255], [0, 0, 0, 0]],
      [[0, 0, 0, 0], [0, 0, 0, 0], [0, 0, 0, 0]]]"

definition scenario_mask :: mask where
  "scenario_mask =
     [[False, False, False], [False, True, False], [False, False, False]]"

text \<open>A row of two pixels, the left one valid.\<close>

definition pair_img :: image where
  "pair_img = [[[1, 2, 3, 255], [9, 8, 7, 60]]]"

definition pair_mask :: mask where
  "pair_mask = [[True, False]]"

text \<open>The scenario after both fills: the colour of the centre everywhere, the alpha of
  the input.\<close>

definition scenario_filled :: image where
  "scenario_filled =
     [[[200, 50, 10, 0], [200, 50, 10, 0], [200, 50, 10, 0]],
      [[200, 50, 10, 0], [200, 50, 10, 255], [200, 50, 10, 0]],
      [[200, 50, 10, 0], [200, 50, 10, 0], [200, 50, 10, 0]]]"

text \<open>A row of four pixels with an external mask: only the second is valid, and the
  invalid ones keep a colour of their own, as they do when the mask is not the alpha.\<close>

definition row_img :: image where
  "row_img = [[[10, 20, 30, 255], [100, 101, 102, 255], [5, 6, 7, 0], [40, 50, 60, 9]]]"

definition row_mask :: mask where
  "row_mask = [[False, True, False, False]]"

section \<open>Shapes and single pixels\<close>

lemma upt_0_3: "[0..<3] = [0, 1, 2]"
  by (simp add: upt_rec)

lemma wf_image_nth:
  assumes "wf_image h w d" "i < h" "j < w"
  shows "i < length d \<and> j < length (d ! i) \<and> length (d ! i ! j) = 4"
proof -
  from assms(1,2) have il: "i < length d" by (simp add: wf_image_def)
  then have "d ! i \<in> set d" by simp
  with assms(1) have row: "length (d ! i) = w" "\<forall>px \<in> set (d ! i). length px = 4"
    by (simp_all add: wf_image_def)
  with assms(3) have "d ! i ! j \<in> set (d ! i)" by simp
  with row have "length (d ! i ! j) = 4" by blast
  with il row assms(3) show ?thesis by simp
qed

lemma wf_mask_nth:
  "wf_mask h w m \<Longrightarrow> i < h \<Longrightarrow> j < w \<Longrightarrow> i < length m \<and> j < length (m ! i)"
  by (auto simp: wf_mask_def)

lemma invert_nth:
  "i < length m \<Longrightarrow> j < length (m ! i) \<Longrightarrow> invert m ! i ! j = (\<not> m ! i ! j)"
  by (simp add: invert_def)

lemma length_assign_where: "length (assign_where out c sel vals) = length out"
  by (simp add: assign_where_def)

lemma length_assign_where_row:
  "i < length out \<Longrightarrow> length (assign_where out c sel vals ! i) = length (out ! i)"
  by (simp add: assign_where_def)

lemma assign_where_nth:
  "i < length out \<Longrightarrow> j < length (out ! i) \<Longrightarrow>
   assign_where out c sel vals ! i ! j =
     (if sel ! i ! j then (out ! i ! j)[c := vals ! i ! j] else out ! i ! j)"
  by (simp add: assign_where_def)

lemma wf_image_assign_where:
  assumes "wf_image h w out"
  shows "wf_image h w (assign_where out c sel vals)"
proof -
  have len: "length (assign_where out c sel vals) = h"
    using assms by (simp add: length_assign_where wf_image_def)
  have rows: "length row = w \<and> (\<forall>px \<in> set row. length px = 4)"
    if "row \<in> set (assign_where out c sel vals)" for row
  proof -
    from that obtain i where i: "i < length out" and
      row: "row = map (\<lambda>j. if sel ! i ! j then (out ! i ! j)[c := vals ! i ! j] else out ! i ! j)
                    [0..<length (out ! i)]"
      by (auto simp: assign_where_def)
    from i assms have w: "length (out ! i) = w" by (simp add: wf_image_def)
    have "length px = 4" if "px \<in> set row" for px
    proof -
      from that row obtain j where j: "j < length (out ! i)" and
        px: "px = (if sel ! i ! j then (out ! i ! j)[c := vals ! i ! j] else out ! i ! j)"
        by auto
      from wf_image_nth[OF assms, of i j] i j w assms have "length (out ! i ! j) = 4"
        by (simp add: wf_image_def)
      with px show ?thesis by simp
    qed
    with row w show ?thesis by simp
  qed
  from len rows show ?thesis unfolding wf_image_def by blast
qed

lemma fold_assign_nth:
  assumes "i < length d" "j < length (d ! i)"
  shows "fold (\<lambda>c out. assign_where out c sel (V c)) [0..<3] d ! i ! j =
     (if sel ! i ! j then (d ! i ! j)[0 := V 0 ! i ! j, 1 := V 1 ! i ! j, 2 := V 2 ! i ! j]
      else d ! i ! j)"
  using assms
  by (simp add: upt_0_3 assign_where_nth length_assign_where length_assign_where_row)

lemma wf_image_smooth_pad: "wf_image h w d \<Longrightarrow> wf_image h w (smooth_pad d m r)"
  by (simp add: smooth_pad_def upt_0_3 wf_image_assign_where)

lemma smooth_pad_nth:
  assumes "wf_image h w d" "wf_mask h w m" "i < h" "j < w"
  shows "smooth_pad d m r ! i ! j =
     (if m ! i ! j then d ! i ! j
      else (d ! i ! j)[0 := avg_channel d m r 0 ! i ! j, 1 := avg_channel d m r 1 ! i ! j,
                       2 := avg_channel d m r 2 ! i ! j])"
  using wf_image_nth[OF assms(1,3,4)] wf_mask_nth[OF assms(2,3,4)]
  by (simp add: smooth_pad_def fold_assign_nth invert_nth)

lemma flood_fill_pad_nth:
  assumes "wf_image h w d" "wf_mask h w m" "i < h" "j < w"
  shows "flood_fill_pad tie d m ! i ! j =
     (if m ! i ! j then d ! i ! j
      else (d ! i ! j)[0 := gather d (edt_indices tie (invert m)) 0 ! i ! j,
                       1 := gather d (edt_indices tie (invert m)) 1 ! i ! j,
                       2 := gather d (edt_indices tie (invert m)) 2 ! i ! j])"
proof (cases "np_any (invert m)")
  case True
  then show ?thesis
    using wf_image_nth[OF assms(1,3,4)] wf_mask_nth[OF assms(2,3,4)]
    by (simp add: flood_fill_pad_def Let_def fold_assign_nth invert_nth)
next
  case False
  have im: "i < length m" "j < length (m ! i)"
    using wf_mask_nth[OF assms(2,3,4)] by simp_all
  then have "invert m ! i \<in> set (invert m)" "invert m ! i ! j \<in> set (invert m ! i)"
    by (simp_all add: invert_def)
  with False have "\<not> invert m ! i ! j"
    unfolding np_any_def list_ex_iff by blast
  with im have "m ! i ! j"
    by (simp add: invert_nth)
  with False show ?thesis
    by (simp add: flood_fill_pad_def)
qed

section \<open>What the two fills leave alone\<close>

text \<open>
  Claim C1.  Where the mask is true, the red, green and blue of a pixel after
  \<open>smooth_pad\<close>, after \<open>flood_fill_pad\<close>, and after the one followed by the other,
  are those of the input: neither fill writes to a valid pixel.
\<close>

theorem valid_pixels_kept:
  assumes "wf_image h w d" "wf_mask h w m" "i < h" "j < w" "m ! i ! j" "c < 3"
  shows "smooth_pad d m r ! i ! j ! c = d ! i ! j ! c
       \<and> flood_fill_pad tie d m ! i ! j ! c = d ! i ! j ! c
       \<and> flood_fill_pad tie (smooth_pad d m r) m ! i ! j ! c = d ! i ! j ! c"
  using assms wf_image_smooth_pad[OF assms(1), of m r]
  by (simp add: smooth_pad_nth flood_fill_pad_nth)

theorem valid_pixels_kept_witness:
  "wf_image 1 2 pair_img \<and> wf_mask 1 2 pair_mask \<and> pair_mask ! 0 ! 0
   \<and> smooth_pad pair_img pair_mask 1 ! 0 ! 0 ! 2 = 3
   \<and> flood_fill_pad (\<lambda>x cands. hd cands) pair_img pair_mask ! 0 ! 0 ! 2 = 3
   \<and> flood_fill_pad (\<lambda>x cands. hd cands) (smooth_pad pair_img pair_mask 1) pair_mask ! 0 ! 0 ! 2 = 3"
proof -
  have wi: "wf_image 1 2 pair_img"
    by (simp add: wf_image_def pair_img_def)
  have wm: "wf_mask 1 2 pair_mask"
    by (simp add: wf_mask_def pair_mask_def)
  have v: "pair_mask ! 0 ! 0"
    by (simp add: pair_mask_def)
  have px: "pair_img ! 0 ! 0 ! 2 = 3"
    by (simp add: pair_img_def)
  from valid_pixels_kept[OF wi wm _ _ v, of 2 1 "\<lambda>x cands. hd cands"] px wi wm v
  show ?thesis by simp
qed

text \<open>
  Claim C10.  The alpha channel, index 3, of every pixel after \<open>smooth_pad\<close> and after
  \<open>flood_fill_pad\<close> is that of the input, valid or not: the two fills write channels 0,
  1 and 2 only.
\<close>

theorem alpha_channel_kept:
  assumes "wf_image h w d" "wf_mask h w m" "i < h" "j < w"
  shows "smooth_pad d m r ! i ! j ! 3 = d ! i ! j ! 3
       \<and> flood_fill_pad tie d m ! i ! j ! 3 = d ! i ! j ! 3"
  using assms by (simp add: smooth_pad_nth flood_fill_pad_nth)

theorem alpha_channel_kept_witness:
  "wf_image 1 2 pair_img \<and> wf_mask 1 2 pair_mask
   \<and> smooth_pad pair_img pair_mask 1 ! 0 ! 1 ! 3 = 60
   \<and> flood_fill_pad (\<lambda>x cands. hd cands) pair_img pair_mask ! 0 ! 1 ! 3 = 60"
proof -
  have wi: "wf_image 1 2 pair_img"
    by (simp add: wf_image_def pair_img_def)
  have wm: "wf_mask 1 2 pair_mask"
    by (simp add: wf_mask_def pair_mask_def)
  have px: "pair_img ! 0 ! 1 ! 3 = 60"
    by (simp add: pair_img_def)
  from alpha_channel_kept[OF wi wm, of 0 1 1 "\<lambda>x cands. hd cands"] px wi wm
  show ?thesis by simp
qed

section \<open>The window sums of the weighted-average fill\<close>

lemma astype_float_nth:
  "i < length m \<Longrightarrow> j < length (m ! i) \<Longrightarrow> astype_float m ! i ! j = (if m ! i ! j then 1 else 0)"
  by (simp add: astype_float_def)

lemma length_astype_float: "length (astype_float m) = length m"
  by (simp add: astype_float_def)

lemma length_astype_float_row: "i < length m \<Longrightarrow> length (astype_float m ! i) = length (m ! i)"
  by (simp add: astype_float_def)

lemma length_channel: "length (channel d c) = length d"
  by (simp add: channel_def)

lemma length_channel_row: "i < length d \<Longrightarrow> length (channel d c ! i) = length (d ! i)"
  by (simp add: channel_def)

lemma length_times2: "length (times2 a b) = min (length a) (length b)"
  by (simp add: times2_def)

lemma length_times2_row:
  "i < length a \<Longrightarrow> i < length b \<Longrightarrow> length (times2 a b ! i) = min (length (a ! i)) (length (b ! i))"
  by (simp add: times2_def)

lemma length_generic_filter_sum: "length (generic_filter_sum a s) = length a"
  by (simp add: generic_filter_sum_def)

lemma length_generic_filter_sum_row:
  "i < length a \<Longrightarrow> length (generic_filter_sum a s ! i) = length (a ! i)"
  by (simp add: generic_filter_sum_def)

lemma generic_filter_sum_nth:
  "i < length a \<Longrightarrow> j < length (a ! i) \<Longrightarrow> generic_filter_sum a s ! i ! j = window_sum a s i j"
  by (simp add: generic_filter_sum_def)

lemma divide_where_nth:
  "i < length a \<Longrightarrow> i < length b \<Longrightarrow> j < length (a ! i) \<Longrightarrow> j < length (b ! i) \<Longrightarrow>
   divide_where a b ! i ! j = (if 0 < b ! i ! j then a ! i ! j div b ! i ! j else 0)"
  by (simp add: divide_where_def)

lemma length_divide_where: "length (divide_where a b) = min (length a) (length b)"
  by (simp add: divide_where_def)

lemma length_divide_where_row:
  "i < length a \<Longrightarrow> i < length b \<Longrightarrow>
   length (divide_where a b ! i) = min (length (a ! i)) (length (b ! i))"
  by (simp add: divide_where_def)

lemma avg_channel_nth:
  assumes "wf_image h w d" "wf_mask h w m" "i < h" "j < w"
  shows "avg_channel d m r c ! i ! j =
     (if 0 < window_sum (astype_float m) (2 * r + 1) i j
      then of_nat (window_sum (times2 (channel d c) (astype_float m)) (2 * r + 1) i j
                   div window_sum (astype_float m) (2 * r + 1) i j)
      else 0)"
proof -
  from wf_image_nth[OF assms(1,3,4)] have d: "i < length d" "j < length (d ! i)" by simp_all
  from wf_mask_nth[OF assms(2,3,4)] have m: "i < length m" "j < length (m ! i)" by simp_all
  have t: "i < length (times2 (channel d c) (astype_float m))"
    "j < length (times2 (channel d c) (astype_float m) ! i)"
    using d m
    by (simp_all add: length_times2 length_times2_row length_channel length_channel_row
        length_astype_float length_astype_float_row)
  have a: "i < length (astype_float m)" "j < length (astype_float m ! i)"
    using m by (simp_all add: length_astype_float length_astype_float_row)
  show ?thesis
    unfolding avg_channel_def Let_def
    using t a
    by (simp add: length_divide_where length_divide_where_row divide_where_nth
        length_generic_filter_sum length_generic_filter_sum_row generic_filter_sum_nth)
qed

lemma window_sum_zero:
  assumes "wf_mask h w m"
    and "\<forall>p<h. \<forall>q<w. \<bar>int p - int i\<bar> \<le> int r \<and> \<bar>int q - int j\<bar> \<le> int r \<longrightarrow> \<not> m ! p ! q"
  shows "window_sum (astype_float m) (2 * r + 1) i j = 0"
proof -
  have z: "at0 (astype_float m) (int i + di) (int j + dj) = 0"
    if "di \<in> set [- int r..int r]" "dj \<in> set [- int r..int r]" for di dj
  proof (cases "0 \<le> int i + di \<and> int i + di < int h \<and> 0 \<le> int j + dj \<and> int j + dj < int w")
    case True
    define p where "p = nat (int i + di)"
    define q where "q = nat (int j + dj)"
    from True have pq: "p < h" "q < w" by (auto simp: p_def q_def)
    from True that have "\<bar>int p - int i\<bar> \<le> int r \<and> \<bar>int q - int j\<bar> \<le> int r"
      by (auto simp: p_def q_def)
    with assms(2) pq have "\<not> m ! p ! q" by blast
    moreover from wf_mask_nth[OF assms(1) pq] have "p < length m" "q < length (m ! p)" by simp_all
    ultimately have "astype_float m ! p ! q = 0" by (simp add: astype_float_nth)
    then show ?thesis by (simp add: at0_def p_def q_def)
  next
    case False
    have "length (astype_float m) = h" using assms(1) by (simp add: length_astype_float wf_mask_def)
    moreover have "length (astype_float m ! nat (int i + di)) = w" if "0 \<le> int i + di" "int i + di < int h"
    proof -
      from that have "nat (int i + di) < h" by simp
      with assms(1) show ?thesis by (simp add: length_astype_float_row wf_mask_def)
    qed
    ultimately show ?thesis using False by (auto simp: at0_def)
  qed
  have half: "(2 * r + 1) div 2 = r" by simp
  show ?thesis
    unfolding window_sum_def Let_def half
    by (simp add: z)
qed

lemma smooth_pad_empty_window:
  assumes "wf_image h w d" "wf_mask h w m" "i < h" "j < w" "c < 3"
    and "\<forall>p<h. \<forall>q<w. \<bar>int p - int i\<bar> \<le> int r \<and> \<bar>int q - int j\<bar> \<le> int r \<longrightarrow> \<not> m ! p ! q"
  shows "smooth_pad d m r ! i ! j ! c = 0"
proof -
  from assms(3,4,6) have inv: "\<not> m ! i ! j" by simp
  have ws: "window_sum (astype_float m) (2 * r + 1) i j = 0"
    by (rule window_sum_zero[OF assms(2,6)])
  have avg: "avg_channel d m r k ! i ! j = 0" for k
    using ws by (simp add: avg_channel_nth[OF assms(1-4)])
  from wf_image_nth[OF assms(1,3,4)] have len: "length (d ! i ! j) = 4" by simp
  from assms(5) have "c = 0 \<or> c = 1 \<or> c = 2" by auto
  then show ?thesis
    using len inv by (auto simp: smooth_pad_nth[OF assms(1-4)] avg)
qed

text \<open>
  Claim C2, as the code has it.  An invalid pixel with no valid pixel within the radius
  does not keep the colour it came with: its weight sum is 0, the quotient array holds
  the 0 of \<^verbatim>\<open>np.zeros_like\<close> there, and that 0 is stored.  The colour is kept only
  when it was 0 already, as it is after the zeroing of the alpha mode.
\<close>

theorem empty_window_zero_fill:
  assumes "wf_image h w d" "wf_mask h w m" "i < h" "j < w" "c < 3"
    and "\<forall>p<h. \<forall>q<w. \<bar>int p - int i\<bar> \<le> int r \<and> \<bar>int q - int j\<bar> \<le> int r \<longrightarrow> \<not> m ! p ! q"
  shows "smooth_pad d m r ! i ! j ! c = 0"
  using assms by (rule smooth_pad_empty_window)

theorem empty_window_zero_fill_witness:
  "wf_image 1 4 row_img \<and> wf_mask 1 4 row_mask
   \<and> \<not> row_mask ! 0 ! 2 \<and> \<not> row_mask ! 0 ! 3
   \<and> row_img ! 0 ! 3 ! 1 = 50
   \<and> smooth_pad row_img row_mask 1 ! 0 ! 3 ! 1 = 0"
proof -
  have wi: "wf_image 1 4 row_img"
    by (simp add: wf_image_def row_img_def)
  have wm: "wf_mask 1 4 row_mask"
    by (simp add: wf_mask_def row_mask_def)
  have nov: "\<forall>p<1. \<forall>q<4. \<bar>int p - int 0\<bar> \<le> int 1 \<and> \<bar>int q - int 3\<bar> \<le> int 1 \<longrightarrow> \<not> row_mask ! p ! q"
  proof (intro allI impI)
    fix p q :: nat
    assume "p < 1" "q < 4" "\<bar>int p - int 0\<bar> \<le> int 1 \<and> \<bar>int q - int 3\<bar> \<le> int 1"
    then have "p = 0" "q = 2 \<or> q = 3" by auto
    then show "\<not> row_mask ! p ! q" by (auto simp: row_mask_def)
  qed
  have px: "row_img ! 0 ! 3 ! 1 = 50"
    by (simp add: row_img_def)
  have "smooth_pad row_img row_mask 1 ! 0 ! 3 ! 1 = 0"
    by (rule empty_window_zero_fill[OF wi wm _ _ _ nov]) simp_all
  moreover have "\<not> row_mask ! 0 ! 2 \<and> \<not> row_mask ! 0 ! 3"
    by (simp add: row_mask_def)
  ultimately show ?thesis using wi wm px by blast
qed

lemma lone_pixel_smooth_pad: "smooth_pad [[[10, 20, 30, 255]]] [[False]] 1 = [[[0, 0, 0, 255]]]"
  by code_simp

text \<open>Claim C2 as written fails: one invalid pixel of colour (10, 20, 30), nothing valid
  around it, comes out black.\<close>

theorem empty_window_not_kept:
  "\<not> [[False]] ! 0 ! 0
   \<and> window_sum (astype_float [[False]]) (2 * 1 + 1) 0 0 = 0
   \<and> smooth_pad [[[10, 20, 30, 255]]] [[False]] 1 ! 0 ! 0 ! 0 \<noteq> [[[10, 20, 30, 255]]] ! 0 ! 0 ! 0"
proof -
  have "window_sum (astype_float [[False]]) (2 * 1 + 1) 0 0 = 0"
    by code_simp
  then show ?thesis
    unfolding lone_pixel_smooth_pad by simp
qed

section \<open>The distance transform and the nearest-valid-pixel fill\<close>

lemma length_invert: "length (invert m) = length m"
  by (simp add: invert_def)

lemma length_invert_row: "i < length m \<Longrightarrow> length (invert m ! i) = length (m ! i)"
  by (simp add: invert_def)

lemma background_iff:
  "(p, q) \<in> set (background m) \<longleftrightarrow> p < length m \<and> q < length (m ! p) \<and> \<not> m ! p ! q"
  by (auto simp: background_def)

lemma background_invert_iff:
  "(p, q) \<in> set (background (invert m)) \<longleftrightarrow> p < length m \<and> q < length (m ! p) \<and> m ! p ! q"
  by (auto simp: background_iff length_invert length_invert_row invert_nth)

lemma min_list_mem: "xs \<noteq> [] \<Longrightarrow> min_list xs \<in> set (xs :: int list)"
  by (simp add: min_list_Min)

lemma nearest_mem:
  assumes "bg \<noteq> []"
  shows "\<exists>y \<in> set bg. nearest tie bg x = (int (fst y), int (snd y))"
proof -
  define dmin where "dmin = min_list (map (sqdist x) bg)"
  define cands where "cands = filter (\<lambda>y. sqdist x y = dmin) bg"
  define y where "y = (if tie x cands \<in> set cands then tie x cands else hd cands)"
  from assms have "dmin \<in> set (map (sqdist x) bg)"
    unfolding dmin_def by (intro min_list_mem) simp
  then have "cands \<noteq> []"
    by (auto simp: cands_def filter_empty_conv)
  then have "y \<in> set cands"
    by (simp add: y_def)
  then have "y \<in> set bg"
    by (simp add: cands_def)
  moreover have "nearest tie bg x = (int (fst y), int (snd y))"
    using assms by (simp add: nearest_def Let_def dmin_def cands_def y_def)
  ultimately show ?thesis by blast
qed

lemma edt_indices_nth:
  "i < length m \<Longrightarrow> j < length (m ! i) \<Longrightarrow>
   edt_indices tie m ! i ! j = nearest tie (background m) (i, j)"
  by (simp add: edt_indices_def)

lemma length_edt_indices: "length (edt_indices tie m) = length m"
  by (simp add: edt_indices_def)

lemma length_edt_indices_row: "i < length m \<Longrightarrow> length (edt_indices tie m ! i) = length (m ! i)"
  by (simp add: edt_indices_def)

lemma gather_nth:
  "i < length idx \<Longrightarrow> j < length (idx ! i) \<Longrightarrow>
   gather d idx c ! i ! j = py_nth (py_nth d (fst (idx ! i ! j))) (snd (idx ! i ! j)) ! c"
  by (simp add: gather_def case_prod_beta)

lemma py_nth_int: "py_nth xs (int n) = xs ! n"
  by (simp add: py_nth_def)

lemma py_nth_last: "xs \<noteq> [] \<Longrightarrow> py_nth xs (- 1) = xs ! (length xs - 1)"
  by (cases xs) (simp_all add: py_nth_def nat_diff_distrib')

lemma gather_edt_nth:
  assumes "wf_mask h w m" "i < h" "j < w"
  shows "gather d (edt_indices tie (invert m)) c ! i ! j =
         py_nth (py_nth d (fst (nearest tie (background (invert m)) (i, j))))
                (snd (nearest tie (background (invert m)) (i, j))) ! c"
proof -
  from wf_mask_nth[OF assms] have "i < length (invert m)" "j < length (invert m ! i)"
    by (simp_all add: length_invert length_invert_row)
  then show ?thesis
    by (simp add: gather_nth edt_indices_nth length_edt_indices length_edt_indices_row)
qed

lemma flood_fill_traceable:
  assumes "wf_image h w d" "wf_mask h w m" "i < h" "j < w"
    and "\<exists>p<h. \<exists>q<w. m ! p ! q"
  shows "\<exists>p<h. \<exists>q<w. m ! p ! q \<and> (\<forall>c<3. flood_fill_pad tie d m ! i ! j ! c = d ! p ! q ! c)"
proof (cases "m ! i ! j")
  case True
  then have "\<forall>c<3. flood_fill_pad tie d m ! i ! j ! c = d ! i ! j ! c"
    by (simp add: flood_fill_pad_nth[OF assms(1-4)])
  with True assms(3,4) show ?thesis by blast
next
  case False
  from assms(5) obtain p0 q0 where "p0 < h" "q0 < w" "m ! p0 ! q0" by blast
  with wf_mask_nth[OF assms(2), of p0 q0] have "(p0, q0) \<in> set (background (invert m))"
    by (simp add: background_invert_iff)
  then have "background (invert m) \<noteq> []" by auto
  from nearest_mem[OF this, of tie "(i, j)"] obtain y where
    y: "y \<in> set (background (invert m))"
       "nearest tie (background (invert m)) (i, j) = (int (fst y), int (snd y))"
    by blast
  obtain p q where pq: "y = (p, q)" by (cases y)
  from y(1) pq have v: "p < length m" "q < length (m ! p)" "m ! p ! q"
    by (simp_all add: background_invert_iff)
  from assms(2) v have bounds: "p < h" "q < w"
    by (auto simp: wf_mask_def)
  have g: "gather d (edt_indices tie (invert m)) c ! i ! j = d ! p ! q ! c" for c
    by (simp add: gather_edt_nth[OF assms(2-4)] y(2) pq py_nth_int)
  from wf_image_nth[OF assms(1,3,4)] have len: "length (d ! i ! j) = 4" by simp
  have "flood_fill_pad tie d m ! i ! j ! c = d ! p ! q ! c" if "c < 3" for c
  proof -
    from that have "c = 0 \<or> c = 1 \<or> c = 2" by auto
    then show ?thesis
      using False len by (auto simp: flood_fill_pad_nth[OF assms(1-4)] g)
  qed
  with bounds v(3) show ?thesis by blast
qed

lemma background_invert_empty:
  assumes "wf_mask h w m" "\<forall>p<h. \<forall>q<w. \<not> m ! p ! q"
  shows "background (invert m) = []"
proof -
  have "x \<notin> set (background (invert m))" for x
  proof (cases x)
    case (Pair p q)
    show ?thesis
    proof
      assume "x \<in> set (background (invert m))"
      with Pair have v: "p < length m" "q < length (m ! p)" "m ! p ! q"
        by (simp_all add: background_invert_iff)
      with assms(1) have "p < h" "q < w" by (auto simp: wf_mask_def)
      with assms(2) v(3) show False by blast
    qed
  qed
  then show ?thesis by (meson last_in_set)
qed

lemma flood_fill_no_valid:
  assumes "wf_image h w d" "wf_mask h w m" "i < h" "j < w" "c < 3"
    and "\<forall>p<h. \<forall>q<w. \<not> m ! p ! q"
  shows "flood_fill_pad tie d m ! i ! j ! c = d ! (h - 1) ! 0 ! c"
proof -
  from assms(3,4,6) have inv: "\<not> m ! i ! j" by simp
  have bg: "background (invert m) = []"
    by (rule background_invert_empty[OF assms(2,6)])
  from assms(1,3) have dne: "d \<noteq> []" "length d = h" by (auto simp: wf_image_def)
  from assms(3) have "h - 1 < h" by simp
  from wf_image_nth[OF assms(1) this assms(4)] have "j < length (d ! (h - 1))" by simp
  moreover from assms(1) \<open>h - 1 < h\<close> have "length (d ! (h - 1)) = w"
    by (simp add: wf_image_def)
  ultimately have row: "d ! (h - 1) \<noteq> []" "length (d ! (h - 1)) = w"
    by auto
  have g: "gather d (edt_indices tie (invert m)) k ! i ! j = d ! (h - 1) ! 0 ! k" for k
    using dne row py_nth_int[of "d ! (h - 1)" 0]
    by (simp add: gather_edt_nth[OF assms(2-4)] bg nearest_def py_nth_last)
  from wf_image_nth[OF assms(1,3,4)] have len: "length (d ! i ! j) = 4" by simp
  from assms(5) have "c = 0 \<or> c = 1 \<or> c = 2" by auto
  then show ?thesis
    using inv len by (auto simp: flood_fill_pad_nth[OF assms(1-4)] g)
qed

section \<open>The scenario of the specification\<close>

lemma scenario_smooth: "smooth_pad scenario_img scenario_mask 1 = scenario_filled"
  by code_simp

lemma scenario_background: "background (invert scenario_mask) = [(1, 1)]"
  by code_simp

lemma nearest_single: "nearest tie [y] x = (int (fst y), int (snd y))"
  by (simp add: nearest_def Let_def)

lemma scenario_any: "np_any (invert scenario_mask)"
  by code_simp

lemma scenario_indices: "edt_indices tie (invert scenario_mask) = replicate 3 (replicate 3 (1, 1))"
  unfolding edt_indices_def scenario_background nearest_single
  by (simp add: invert_def scenario_mask_def upt_0_3 numeral_3_eq_3)

lemma scenario_gather: "gather scenario_filled (replicate 3 (replicate 3 (1, 1))) c = replicate 3 (replicate 3 (scenario_filled ! 1 ! 1 ! c))"
  by (simp add: gather_def py_nth_def numeral_3_eq_3)

lemma scenario_flood: "flood_fill_pad tie scenario_filled scenario_mask = scenario_filled"
  unfolding flood_fill_pad_def Let_def scenario_indices
  apply (simp add: scenario_any scenario_gather upt_0_3)
  apply (simp add: scenario_filled_def invert_def scenario_mask_def assign_where_def upt_0_3 numeral_3_eq_3)
  done

text \<open>
  Claim C9.  For the three by three image whose centre alone is valid, with colour
  (200, 50, 10), and radius 1, \<open>smooth_pad\<close> followed by \<open>flood_fill_pad\<close> gives
  the colour (200, 50, 10) at every pixel, whatever the tie rule of the distance transform.
\<close>

theorem scenario_uniform:
  "flood_fill_pad tie (smooth_pad scenario_img scenario_mask 1) scenario_mask = scenario_filled
   \<and> map (map (take 3)) (flood_fill_pad tie (smooth_pad scenario_img scenario_mask 1) scenario_mask)
       = replicate 3 (replicate 3 [200, 50, 10])"
  unfolding scenario_smooth scenario_flood by (simp add: scenario_filled_def numeral_3_eq_3)

section \<open>The parameters chosen from the resolution\<close>

lemma round_half_even_bounds: "\<lfloor>y\<rfloor> \<le> round_half_even y \<and> round_half_even y \<le> \<lfloor>y\<rfloor> + 1"
  by (simp add: round_half_even_def Let_def)

lemma round_half_even_mono:
  assumes "x \<le> y"
  shows "round_half_even x \<le> round_half_even y"
proof (cases "\<lfloor>x\<rfloor> = \<lfloor>y\<rfloor>")
  case True
  with assms show ?thesis
    by (auto simp: round_half_even_def Let_def)
next
  case False
  with assms have "\<lfloor>x\<rfloor> + 1 \<le> \<lfloor>y\<rfloor>"
    using floor_mono[OF assms] by linarith
  with round_half_even_bounds[of x] round_half_even_bounds[of y] show ?thesis
    by linarith
qed

lemma round_half_even_of_int: "round_half_even (of_int n) = n"
  by (simp add: round_half_even_def)

text \<open>The rounding leaves a value alone that has a significand of the format's width, and
  it keeps a value between 0 and 255 there.\<close>

lemma bitlen_lower: "0 < a \<Longrightarrow> (2 :: rat) powi (bitlen a - 1) \<le> of_int a"
proof -
  assume a: "0 < a"
  then have "1 \<le> bitlen a" by (auto simp: bitlen_alt_def)
  moreover from bitlen_bounds[OF a] have "(2 :: int) ^ nat (bitlen a - 1) \<le> a" by simp
  then have "(of_int (2 ^ nat (bitlen a - 1)) :: rat) \<le> of_int a"
    by (simp only: of_int_le_iff)
  ultimately show ?thesis by (simp add: power_int_def)
qed

lemma bitlen_upper: "0 < b \<Longrightarrow> of_int b \<le> (2 :: rat) powi bitlen b"
proof -
  assume b: "0 < b"
  then have "0 \<le> bitlen b" by (simp add: bitlen_nonneg)
  moreover from bitlen_bounds[OF b] have "b \<le> (2 :: int) ^ nat (bitlen b)" by simp
  then have "(of_int b :: rat) \<le> of_int (2 ^ nat (bitlen b))"
    by (simp only: of_int_le_iff)
  ultimately show ?thesis by (simp add: power_int_def)
qed

lemma ilog2_le:
  assumes "x \<noteq> 0"
  shows "2 powi ilog2 x \<le> \<bar>x\<bar>"
proof -
  obtain a b where q: "quotient_of \<bar>x\<bar> = (a, b)" by (cases "quotient_of \<bar>x\<bar>")
  then have b: "0 < b" by (rule quotient_of_denom_pos)
  from q have x: "\<bar>x\<bar> = of_int a / of_int b" by (rule quotient_of_div)
  from assms have "0 < \<bar>x\<bar>" by simp
  with x b have a: "0 < a" by (simp add: zero_less_divide_iff)
  define k where "k = bitlen a - bitlen b"
  show ?thesis
  proof (cases "2 powi k \<le> \<bar>x\<bar>")
    case True
    then show ?thesis by (simp add: ilog2_def q k_def)
  next
    case False
    have "(2 :: rat) powi (k - 1) = 2 powi (bitlen a - 1) / 2 powi bitlen b"
      by (simp add: k_def power_int_diff[symmetric] algebra_simps)
    also have "\<dots> \<le> of_int a / of_int b"
      using bitlen_lower[OF a] bitlen_upper[OF b] a b
      by (intro frac_le) simp_all
    finally have "2 powi (k - 1) \<le> \<bar>x\<bar>" by (simp add: x)
    with False show ?thesis by (simp add: ilog2_def q k_def)
  qed
qed

lemma fp_round_exact:
  assumes "n \<noteq> 0" "\<bar>n\<bar> < 2 ^ p" "emin - int p + 1 \<le> j"
  shows "fp_round p emin (of_int n * 2 powi j) = of_int n * 2 powi j"
proof -
  define x :: rat where "x = of_int n * 2 powi j"
  have x0: "x \<noteq> 0" using assms(1) by (simp add: x_def)
  define e where "e = max (ilog2 x) emin"
  have "ilog2 x - int p + 1 \<le> j"
  proof -
    have "2 powi ilog2 x \<le> \<bar>x\<bar>" by (rule ilog2_le[OF x0])
    also have "\<bar>x\<bar> = of_int \<bar>n\<bar> * 2 powi j"
      by (simp add: x_def abs_mult)
    also have "\<dots> < of_int (2 ^ p) * 2 powi j"
      using assms(2) by (intro mult_strict_right_mono) (simp_all only: of_int_less_iff zero_less_power_int zero_less_numeral)
    also have "\<dots> = 2 powi (int p + j)"
      by (simp add: power_int_add power_int_of_nat)
    finally have "(2 :: rat) powi ilog2 x < 2 powi (int p + j)" .
    then have "ilog2 x < int p + j"
      by (metis linorder_not_less one_le_numeral power_int_increasing)
    then show ?thesis by simp
  qed
  with assms(3) have le: "e - int p + 1 \<le> j" by (simp add: e_def)
  define d where "d = nat (j - (e - int p + 1))"
  have "x / 2 powi (e - int p + 1) = of_int n * 2 powi (j - (e - int p + 1))"
    by (simp add: x_def power_int_diff)
  also have "\<dots> = of_int (n * 2 ^ d)"
    using le by (simp add: d_def power_int_def)
  finally have quo: "x / 2 powi (e - int p + 1) = of_int (n * 2 ^ d)" .
  have "fp_round p emin x = of_int (n * 2 ^ d) * 2 powi (e - int p + 1)"
    using x0 by (simp only: fp_round_def Let_def e_def[symmetric] quo round_half_even_of_int if_False)
  also have "\<dots> = x"
    using quo by (simp add: field_simps)
  finally show ?thesis by (simp add: x_def)
qed

lemma fp_round_nonneg: "0 \<le> y \<Longrightarrow> 0 \<le> fp_round p emin y"
proof -
  assume y: "0 \<le> y"
  have "0 \<le> round_half_even (y / q)" if "0 < q" for q :: rat
  proof -
    from y that have "0 \<le> \<lfloor>y / q\<rfloor>" by simp
    with round_half_even_bounds[of "y / q"] show ?thesis by linarith
  qed
  then show ?thesis
    by (simp add: fp_round_def Let_def)
qed

lemma f32_le_255:
  assumes "y \<le> 255"
  shows "f32 y \<le> 255"
proof (cases "0 < y")
  case False
  then have "y \<le> 0" by simp
  show ?thesis
  proof (cases "y = 0")
    case True
    then show ?thesis by (simp add: f32_def fp_round_def)
  next
    case False
    with \<open>y \<le> 0\<close> have neg: "y < 0" by simp
    have "round_half_even (y / q) \<le> 0" if "0 < q" for q :: rat
    proof -
      from neg that have "y / q < 0" by (simp add: divide_neg_pos)
      then have "\<lfloor>y / q\<rfloor> + 1 \<le> 0" by linarith
      with round_half_even_bounds[of "y / q"] show ?thesis by linarith
    qed
    then have "f32 y \<le> 0"
      using neg by (simp add: f32_def fp_round_def Let_def mult_le_0_iff)
    then show ?thesis by simp
  qed
next
  case True
  define e where "e = max (ilog2 y) (- 126)"
  have "ilog2 y < 8"
  proof -
    have "2 powi ilog2 y \<le> \<bar>y\<bar>" using True by (intro ilog2_le) simp
    also have "\<dots> < 2 powi 8" using True assms by simp
    finally show ?thesis
      by (metis linorder_not_less one_le_numeral power_int_increasing)
  qed
  then have e: "e \<le> 7" by (simp add: e_def)
  define q :: rat where "q = 2 powi (e - 23)"
  have q0: "0 < q" by (simp add: q_def)
  define M where "M = (255 :: int) * 2 ^ nat (23 - e)"
  have Mq: "of_int M * q = 255"
    using e by (simp add: M_def q_def power_int_def field_simps flip: power_add)
  then have "(255 :: rat) / q = of_int M" using q0 by (simp add: field_simps)
  moreover have "y / q \<le> 255 / q" using assms q0 by (simp add: divide_right_mono)
  ultimately have "round_half_even (y / q) \<le> M"
    using round_half_even_mono[of "y / q" "of_int M"] by (simp add: round_half_even_of_int)
  then have "of_int (round_half_even (y / q)) * q \<le> of_int M * q"
    using q0 by (simp only: mult_le_cancel_right_pos of_int_le_iff)
  moreover have "f32 y = of_int (round_half_even (y / q)) * q"
    using True by (simp add: f32_def fp_round_def Let_def q_def e_def)
  ultimately show ?thesis by (simp add: Mq)
qed

lemma f64_dyadic:
  assumes "0 < n" "n < 2 ^ 53" "k \<le> 1074"
  shows "f64 (of_int n / 2 ^ k) = of_int n / 2 ^ k"
proof -
  have "(of_int n :: rat) / 2 ^ k = of_int n * 2 powi (- int k)"
    by (simp add: power_int_minus field_simps)
  moreover have "fp_round 53 (- 1022) (of_int n * 2 powi (- int k)) = of_int n * 2 powi (- int k)"
    using assms by (intro fp_round_exact) simp_all
  ultimately show ?thesis by (simp add: f64_def)
qed

lemma f64_triple:
  assumes "0 < m" "3 * m < 2 ^ 53" "k \<le> 1074"
  shows "f64 (f64 (of_int m / 2 ^ k) * 3) = of_int m / 2 ^ k * 3"
proof -
  from assms have a: "f64 (of_int m / 2 ^ k) = of_int m / 2 ^ k"
    by (intro f64_dyadic) simp_all
  have b: "(of_int m :: rat) / 2 ^ k * 3 = of_int (3 * m) / 2 ^ k"
    by simp
  from assms have c: "f64 (of_int (3 * m) / 2 ^ k) = of_int (3 * m) / 2 ^ k"
    by (intro f64_dyadic) simp_all
  show ?thesis
    unfolding a b c by (rule refl)
qed


lemma py_round1_mono: "x \<le> y \<Longrightarrow> py_round1 x \<le> py_round1 y"
  by (simp add: py_round1_def round_half_even_mono divide_right_mono)

lemma py_round1_1: "py_round1 1 = 1"
  using round_half_even_of_int[of 10] by (simp add: py_round1_def)

lemma py_round1_10: "py_round1 10 = 10"
  using round_half_even_of_int[of 100] by (simp add: py_round1_def)

lemma round_clamp_commute: "py_round1 (min 10 (max 1 x)) = clamp (py_round1 x) 1 10"
proof -
  consider "x \<le> 1" | "1 \<le> x" "x \<le> 10" | "10 \<le> x" by linarith
  then show ?thesis
  proof cases
    case 1
    then have "py_round1 x \<le> 1" using py_round1_mono[of x 1] by (simp add: py_round1_1)
    with 1 show ?thesis by (simp add: clamp_def py_round1_1 max_def min_def)
  next
    case 2
    then have "1 \<le> py_round1 x" "py_round1 x \<le> 10"
      using py_round1_mono[of 1 x] py_round1_mono[of x 10] by (simp_all add: py_round1_1 py_round1_10)
    with 2 show ?thesis by (simp add: clamp_def max_def min_def)
  next
    case 3
    then have "10 \<le> py_round1 x" using py_round1_mono[of 10 x] by (simp add: py_round1_10)
    with 3 show ?thesis by (simp add: clamp_def py_round1_10 max_def min_def)
  qed
qed

text \<open>
  Claim C7.  For a positive longer side whose triple is below \<open>2 ^ 53\<close>, the range in
  which the doubles of the code are exact, \<open>auto_set_params\<close> returns the radius
  \<open>max(2, floor(maxDim / 512 * 3))\<close> and the sigma
  \<open>clamp(round(maxDim / 1024 * 3, 1), 1.0, 10.0)\<close> of the specification: the code
  clamps before it rounds, the specification after, and the two agree.  The result is a
  function of the size alone, so equal sizes give equal results.
\<close>

theorem auto_set_params_formula:
  assumes "0 < max w h" "3 * max w h < 2 ^ 53"
  shows "auto_set_params (w, h) = (spec_radius (max w h), spec_sigma (max w h))"
proof -
  have r: "f64 (f64 (of_int (max w h) / 512) * 3) = of_int (max w h) / 512 * 3"
    using f64_triple[OF assms, of 9] by simp
  have g: "f64 (f64 (of_int (max w h) / 1024) * 3) = of_int (max w h) / 1024 * 3"
    using f64_triple[OF assms, of 10] by simp
  from assms(1) have "(0 :: rat) \<le> of_int (max w h) / 512 * 3" by simp
  then have "py_int (of_int (max w h) / 512 * 3) = \<lfloor>(of_int (max w h) :: rat) / 512 * 3\<rfloor>"
    by (simp add: py_int_def)
  then show ?thesis
    by (simp add: auto_set_params_def Let_def r g spec_radius_def spec_sigma_def round_clamp_commute)
qed

theorem auto_set_params_formula_witness:
  "(0 :: int) < max 768 512 \<and> (3 :: int) * max 768 512 < 2 ^ 53
   \<and> auto_set_params (768, 512) = (spec_radius (max 768 512), spec_sigma (max 768 512))
   \<and> auto_set_params (768, 512) = (4, 11 / 5)"
proof -
  have h: "(0 :: int) < max 768 512" by simp
  have b: "(3 :: int) * max 768 512 < 2 ^ 53" by simp
  have v: "auto_set_params (768, 512) = (4, 11 / 5)" by code_simp
  from auto_set_params_formula[OF h b] h b v show ?thesis by simp
qed

section \<open>The ends of a run\<close>

text \<open>
  Claim C8.  With an external mask whose size is not the size of the image, the run ends
  with the error of the size check, exit status 1, before any stage that touches pixels
  and with nothing saved.
\<close>

theorem mask_size_mismatch_aborts:
  assumes "size2 g \<noteq> size2 d"
  shows "pad_image env d radius blur_sigma (Some (Decoded g)) auto_params = ([], Exit1 MaskSizeMismatch)"
  using assms by (simp add: pad_image_def load_mask_image_def Let_def)

theorem mask_size_mismatch_aborts_witness:
  "size2 [[0 :: u8]] \<noteq> size2 pair_img
   \<and> pad_image small_sigma_env pair_img None None (Some (Decoded [[0]])) False = ([], Exit1 MaskSizeMismatch)"
proof -
  have h: "size2 [[0 :: u8]] \<noteq> size2 pair_img"
    by (simp add: size2_def pair_img_def)
  from mask_size_mismatch_aborts[OF h] h show ?thesis by simp
qed

text \<open>
  Claim C6, as the code has it.  In the alpha mode an image whose alpha is 255 everywhere
  ends the run at once and without error: no stage runs.  The function does not hand the
  image back, though: it returns nothing and nothing is saved.
\<close>

theorem opaque_image_nothing_saved:
  assumes "\<forall>row \<in> set d. \<forall>px \<in> set row. px ! 3 = 255"
  shows "pad_image env d radius blur_sigma None auto_params = ([], NothingToPad)"
  using assms by (simp add: pad_image_def Let_def np_all_def list_all_iff)

theorem opaque_image_nothing_saved_witness:
  "[[[10, 20, 30, 255 :: u8]]] ! 0 ! 0 ! 3 = 255
   \<and> pad_image small_sigma_env [[[10, 20, 30, 255]]] None None None False = ([], NothingToPad)"
proof -
  have h: "\<forall>row \<in> set [[[10, 20, 30, 255 :: u8]]]. \<forall>px \<in> set row. px ! 3 = 255"
    by simp
  from opaque_image_nothing_saved[OF h] h show ?thesis by simp
qed

text \<open>Claim C6 as written fails: the run on a single opaque pixel does not end with that
  image as its output.\<close>

theorem opaque_image_not_returned:
  "snd (pad_image small_sigma_env [[[10, 20, 30, 255]]] None None None False) \<noteq> Saved [[[10, 20, 30, 255]]]"
proof -
  have "pad_image small_sigma_env [[[10, 20, 30, 255]]] None None None False = ([], NothingToPad)"
    by code_simp
  then show ?thesis by simp
qed

section \<open>Coverage of the nearest-valid-pixel fill\<close>

lemma wf_image_flood_fill_pad: "wf_image h w d \<Longrightarrow> wf_image h w (flood_fill_pad tie d m)"
  by (simp add: flood_fill_pad_def Let_def upt_0_3 wf_image_assign_where)

lemma force_opaque_nth:
  "i < length d \<Longrightarrow> j < length (d ! i) \<Longrightarrow> force_opaque d ! i ! j = take 3 (d ! i ! j) @ [255]"
  by (simp add: force_opaque_def)

lemma take3_zero:
  assumes "length xs = 4" "xs ! 0 = (0 :: u8)" "xs ! 1 = 0" "xs ! 2 = 0"
  shows "take 3 xs = [0, 0, 0]"
proof -
  from assms(1) obtain a b c e where "xs = [a, b, c, e]"
    by (auto simp: numeral_eq_Suc length_Suc_conv)
  with assms(2-4) show ?thesis by simp
qed

lemma pad_image_external:
  assumes "load_mask_image f (size2 d) = Inr m"
  shows "pad_image env d radius blur_sigma (Some f) auto_params =
     ([SmoothPad, FloodFillPad, ForceOpaque],
      Saved (force_opaque (flood_fill_pad (edt_tie env)
        (smooth_pad d m
          (case radius of
             None \<Rightarrow> if auto_params \<or> (radius = None \<and> blur_sigma = None)
                     then nat (fst (auto_set_params (size2 d))) else 3
           | Some r \<Rightarrow> r)) m)))"
  using assms by (simp add: pad_image_def Let_def)

lemma no_valid_black:
  assumes "wf_image h w d" "wf_mask h w m" "i < h" "j < w"
    and "\<forall>p<h. \<forall>q<w. \<not> m ! p ! q"
  shows "force_opaque (flood_fill_pad tie (smooth_pad d m r) m) ! i ! j = [0, 0, 0, 255]"
proof -
  let ?S = "smooth_pad d m r"
  let ?F = "flood_fill_pad tie ?S m"
  have wS: "wf_image h w ?S" by (rule wf_image_smooth_pad[OF assms(1)])
  then have wF: "wf_image h w ?F" by (rule wf_image_flood_fill_pad)
  from assms(3,4) have last: "h - 1 < h" "0 < w" by simp_all
  have win: "\<forall>p<h. \<forall>q<w. \<bar>int p - int (h - 1)\<bar> \<le> int r \<and> \<bar>int q - int 0\<bar> \<le> int r
      \<longrightarrow> \<not> m ! p ! q"
    using assms(5) by blast
  have zero: "?F ! i ! j ! c = 0" if "c < 3" for c
  proof -
    have "?F ! i ! j ! c = ?S ! (h - 1) ! 0 ! c"
      by (rule flood_fill_no_valid[OF wS assms(2,3,4) that assms(5)])
    also have "\<dots> = 0"
      by (rule smooth_pad_empty_window[OF assms(1,2) last that win])
    finally show ?thesis .
  qed
  from wf_image_nth[OF wF assms(3,4)]
  have b: "i < length ?F" "j < length (?F ! i)" "length (?F ! i ! j) = 4" by simp_all
  have "take 3 (?F ! i ! j) = [0, 0, 0]"
    by (rule take3_zero[OF b(3)]) (simp_all add: zero)
  with b show ?thesis by (simp add: force_opaque_nth)
qed

text \<open>
  Claim C5, as the code has it.  When some pixel is valid, every pixel after
  \<open>flood_fill_pad\<close> has the red, green and blue that some valid pixel had in the
  input of the fill.  When no pixel is valid, nothing raises an error: the distance
  transform answers \<open>(-1, 0)\<close> everywhere, every pixel takes the colour of the first pixel
  of the last row,
  and with an external mask the run saves an image that is black and opaque everywhere.
\<close>

theorem nearest_fill_coverage:
  assumes "wf_image h w d" "wf_mask h w m" "i < h" "j < w"
  shows "((\<exists>p<h. \<exists>q<w. m ! p ! q) \<longrightarrow>
            (\<exists>p<h. \<exists>q<w. m ! p ! q \<and> (\<forall>c<3. flood_fill_pad tie d m ! i ! j ! c = d ! p ! q ! c)))
       \<and> ((\<forall>p<h. \<forall>q<w. \<not> m ! p ! q) \<and> load_mask_image f (size2 d) = Inr m \<longrightarrow>
            (\<exists>img. pad_image env d radius blur_sigma (Some f) auto_params =
                     ([SmoothPad, FloodFillPad, ForceOpaque], Saved img)
                   \<and> img ! i ! j = [0, 0, 0, 255]))"
proof (intro conjI impI)
  assume "\<exists>p<h. \<exists>q<w. m ! p ! q"
  then show "\<exists>p<h. \<exists>q<w. m ! p ! q \<and> (\<forall>c<3. flood_fill_pad tie d m ! i ! j ! c = d ! p ! q ! c)"
    by (rule flood_fill_traceable[OF assms])
next
  assume a: "(\<forall>p<h. \<forall>q<w. \<not> m ! p ! q) \<and> load_mask_image f (size2 d) = Inr m"
  then obtain r where "pad_image env d radius blur_sigma (Some f) auto_params =
     ([SmoothPad, FloodFillPad, ForceOpaque],
      Saved (force_opaque (flood_fill_pad (edt_tie env) (smooth_pad d m r) m)))"
    using pad_image_external[of f d m env radius blur_sigma auto_params] by blast
  moreover have "force_opaque (flood_fill_pad (edt_tie env) (smooth_pad d m r) m) ! i ! j = [0, 0, 0, 255]"
    using a by (intro no_valid_black[OF assms]) simp
  ultimately show "\<exists>img. pad_image env d radius blur_sigma (Some f) auto_params =
                     ([SmoothPad, FloodFillPad, ForceOpaque], Saved img)
                   \<and> img ! i ! j = [0, 0, 0, 255]"
    by blast
qed

theorem nearest_fill_coverage_witness:
  "wf_image 1 2 pair_img \<and> wf_mask 1 2 pair_mask \<and> pair_mask ! 0 ! 0
   \<and> (\<exists>p<1. \<exists>q<2. pair_mask ! p ! q
         \<and> (\<forall>c<3. flood_fill_pad (\<lambda>x cands. hd cands) pair_img pair_mask ! 0 ! 1 ! c = pair_img ! p ! q ! c))
   \<and> wf_image 1 1 [[[10, 20, 30, 255]]] \<and> wf_mask 1 1 [[False]]
   \<and> load_mask_image (Decoded [[0]]) (size2 [[[10, 20, 30, 255 :: u8]]]) = Inr [[False]]
   \<and> (\<exists>img. pad_image small_sigma_env [[[10, 20, 30, 255]]] None None (Some (Decoded [[0]])) False =
               ([SmoothPad, FloodFillPad, ForceOpaque], Saved img)
             \<and> img ! 0 ! 0 = [0, 0, 0, 255])"
proof -
  have wi: "wf_image 1 2 pair_img"
    by (simp add: wf_image_def pair_img_def)
  have wm: "wf_mask 1 2 pair_mask"
    by (simp add: wf_mask_def pair_mask_def)
  have v: "pair_mask ! 0 ! 0"
    by (simp add: pair_mask_def)
  have "(0 :: nat) < 1 \<and> (\<exists>q<2. pair_mask ! 0 ! q)"
    using v by (intro conjI exI[of _ 0]) simp_all
  then have ex: "\<exists>p<1. \<exists>q<2. pair_mask ! p ! q"
    by blast
  have one: "\<exists>p<1. \<exists>q<2. pair_mask ! p ! q
         \<and> (\<forall>c<3. flood_fill_pad (\<lambda>x cands. hd cands) pair_img pair_mask ! 0 ! 1 ! c = pair_img ! p ! q ! c)"
    using nearest_fill_coverage[OF wi wm, where i = 0 and j = 1 and tie = "\<lambda>x cands. hd cands"] ex
    by simp
  have wi1: "wf_image 1 1 [[[10, 20, 30, 255]]]"
    by (simp add: wf_image_def)
  have wm1: "wf_mask 1 1 [[False]]"
    by (simp add: wf_mask_def)
  have ld: "load_mask_image (Decoded [[0]]) (size2 [[[10, 20, 30, 255 :: u8]]]) = Inr [[False]]"
    by (simp add: load_mask_image_def size2_def)
  have nv: "\<forall>p<1. \<forall>q<1. \<not> [[False]] ! p ! q"
    by simp
  have two: "\<exists>img. pad_image small_sigma_env [[[10, 20, 30, 255]]] None None (Some (Decoded [[0]])) False =
               ([SmoothPad, FloodFillPad, ForceOpaque], Saved img)
             \<and> img ! 0 ! 0 = [0, 0, 0, 255]"
    using nearest_fill_coverage[OF wi1 wm1, where i = 0 and j = 0 and f = "Decoded [[0]]"
        and env = small_sigma_env and radius = None and blur_sigma = None and auto_params = False]
      nv ld
    by simp
  from wi wm v one wi1 wm1 ld two show ?thesis by blast
qed

text \<open>Claim C5 as written fails: with an external mask that marks the only pixel invalid,
  the run ends with a saved black image, not with an error.\<close>

theorem no_valid_pixel_no_error:
  "\<not> [[128 < (0 :: u8)]] ! 0 ! 0
   \<and> pad_image small_sigma_env [[[10, 20, 30, 255]]] None None (Some (Decoded [[0]])) False
       = ([SmoothPad, FloodFillPad, ForceOpaque], Saved [[[0, 0, 0, 255]]])"
proof -
  have "pad_image small_sigma_env [[[10, 20, 30, 255]]] None None (Some (Decoded [[0]])) False
       = ([SmoothPad, FloodFillPad, ForceOpaque], Saved [[[0, 0, 0, 255]]])"
    by code_simp
  then show ?thesis by simp
qed

section \<open>The alpha fade on a constant field\<close>

text \<open>
  Where the range of the blurred field, as line 133 computes it, is not zero, the fade
  never lowers an alpha: the normalized value is clipped to the interval from 0 to 1, its
  product with 255 rounds to a value from 0 to 255, and the maximum with the original
  alpha is truncated to a byte that is at least that alpha.
\<close>

lemma u8_le_word_of_int:
  assumes "int (unat (v :: u8)) \<le> k" "k \<le> 255"
  shows "v \<le> word_of_int k"
proof -
  from assms(1) have le: "uint v \<le> k" by simp
  moreover have "0 \<le> uint v" by simp
  ultimately have "0 \<le> k" by linarith
  moreover from assms(2) have "k < 2 ^ 8" by simp
  ultimately have "uint (word_of_int k :: u8) = k"
    by (simp add: uint_word_of_int)
  with le show ?thesis
    by (simp add: word_le_def)
qed

lemma fade_element_ge:
  assumes "f32 (mx - mn) \<noteq> 0"
  shows "v \<le> astype_u8 nan (np_maximum (of_nat (unat (v :: u8)))
               (times255 (np_clip01 (np_divide (f32 (x - mn)) (f32 (mx - mn))))))"
proof -
  define c where "c = min (max (f32 (f32 (x - mn) / f32 (mx - mn))) 0) (1 :: rat)"
  define t where "t = max (of_nat (unat v)) (f32 (c * 255))"
  have c: "0 \<le> c" "c \<le> 1" by (simp_all add: c_def)
  then have s: "0 \<le> c * 255" "c * 255 \<le> 255" by simp_all
  have "0 \<le> fp_round 24 (- 126) (c * 255)"
    using s(1) by (rule fp_round_nonneg)
  moreover have "f32 (c * 255) \<le> 255"
    using s(2) by (rule f32_le_255)
  ultimately have p: "0 \<le> f32 (c * 255)" "f32 (c * 255) \<le> 255"
    by (simp_all add: f32_def)
  have "unat v < 2 ^ LENGTH(8)" by (rule unsigned_less)
  then have "unat v \<le> 255" by simp
  then have a: "(of_nat (unat v) :: rat) \<le> 255"
    by (metis of_nat_le_iff of_nat_numeral)
  have t: "of_nat (unat v) \<le> t" "t \<le> 255" "0 \<le> t"
    using p a by (auto simp: t_def max_def)
  have "int (unat v) \<le> \<lfloor>t\<rfloor>"
    using t(1) by (simp add: le_floor_iff)
  moreover have "\<lfloor>t\<rfloor> \<le> 255"
    using t(2) by (simp add: floor_le_iff)
  ultimately have "v \<le> word_of_int \<lfloor>t\<rfloor>"
    by (rule u8_le_word_of_int)
  moreover have "astype_u8 nan (np_maximum (of_nat (unat v))
               (times255 (np_clip01 (np_divide (f32 (x - mn)) (f32 (mx - mn)))))) = word_of_int \<lfloor>t\<rfloor>"
    using assms t(3) by (simp add: np_divide_def py_int_def t_def c_def)
  ultimately show ?thesis by simp
qed

lemma fade_alpha_nth:
  assumes "i < length alpha" "i < length distance" "j < length (alpha ! i)" "j < length (distance ! i)"
  shows "fade_alpha nan alpha distance ! i ! j =
     astype_u8 nan (np_maximum (alpha ! i ! j)
       (times255 (np_clip01 (np_divide (f32 (distance ! i ! j - amin distance))
                                      (f32 (amax distance - amin distance))))))"
  using assms by (simp add: fade_alpha_def)

lemma fade_alpha_ge:
  assumes "f32 (amax distance - amin distance) \<noteq> 0"
    and "i < length a" "i < length distance" "j < length (a ! i)" "j < length (distance ! i)"
  shows "a ! i ! j \<le> fade_alpha nan (map (map (\<lambda>v. of_nat (unat v))) a) distance ! i ! j"
  using assms fade_element_ge[of "amax distance" "amin distance" "a ! i ! j" nan "distance ! i ! j"]
  by (simp add: fade_alpha_nth)

lemma fade_alpha_constant:
  assumes "amax distance = amin distance"
    and "i < length alpha" "i < length distance" "j < length (alpha ! i)" "j < length (distance ! i)"
    and "distance ! i ! j = amin distance"
  shows "fade_alpha nan alpha distance ! i ! j = nan"
  using assms by (simp add: fade_alpha_nth np_divide_def f32_def fp_round_def)

text \<open>
  Claim C3 does not hold of the code.  A single pixel of alpha 128 in the alpha mode: the
  field is the blur of a field of zeros, so it is constant, \<^verbatim>\<open>0 / 0\<close> is NaN, NaN
  survives \<^verbatim>\<open>np.clip\<close> and \<^verbatim>\<open>np.maximum\<close>, and the cast stores 0.  The saved alpha
  is 0, below the 128 of the input.
\<close>

theorem fade_lowers_alpha:
  "pad_image small_sigma_env [[[10, 20, 30, 128]]] None (Some (1 / 10)) None False
     = ([ZeroInvalid, SmoothPad, FloodFillPad, AlphaFade], Saved [[[0, 0, 0, 0]]])"
  by code_simp

text \<open>
  Claim C4 does not hold of the code.  Lines 133 and 134 on a constant field: the
  normalized field is NaN everywhere, not zero, and every faded alpha is the byte the
  platform casts NaN to; for the alphas 0 and 128 no such byte gives back the original.
\<close>

theorem constant_field_not_guarded:
  "amax [[0, 0]] = amin [[0, 0]] \<and> fade_alpha nan [[0, 128]] [[0, 0]] = [[nan, nan]]
   \<and> fade_alpha nan [[0, 128]] [[0, 0]] \<noteq> [[0, 128]]"
  by (simp add: fade_alpha_def amin_def amax_def np_divide_def f32_def fp_round_def)

end
